theory Spec2Isabelle
  imports
    Complex_Main
    "HOL-Library.Word"
    "HOL-Library.Char_ord"
    "HOL-Library.List_Lexorder"
    "HOL-Library.Product_Lexorder"
begin

section \<open>The MenuItem data class (database.py, class MenuItem)\<close>

text \<open>
  A menu item is the dataclass of \<^verbatim>\<open>database.py\<close>. The fields \<^verbatim>\<open>id\<close> and
  \<^verbatim>\<open>image\<close> are called \<open>item_id\<close> and \<open>image_data\<close> here, because HOL already has
  constants of those names. Optional fields are options; \<^verbatim>\<open>category_id\<close> is an option
  too, since the form hands over \<^verbatim>\<open>None\<close> when no category is selected. An image is a
  byte string.

  A Python float is modelled by the real number it denotes (a finite float; NaN and the
  infinities are left out). The only float operation of the code that rounds is the
  subtraction in \<^verbatim>\<open>equals\<close>; its rounding is the parameter \<open>rnd\<close> of the model, so
  \<^verbatim>\<open>x - y\<close> is \<open>rnd (x - y)\<close> and the literal \<^verbatim>\<open>0.01\<close> is \<open>rnd (1 / 100)\<close>.
  Nothing is assumed about \<open>rnd\<close> except where a theorem says so.
\<close>

type_synonym bytes = "8 word list"

record MenuItem =
  item_id :: "int option"
  name :: string
  description :: string
  price :: real
  category_id :: "int option"
  image_data :: "bytes option"
  image_name :: "string option"
  category_name :: "string option"

text \<open>Python truthiness of the values the code tests with \<^verbatim>\<open>not\<close> and \<^verbatim>\<open>and\<close>.\<close>

definition truthy_str :: "string \<Rightarrow> bool" where
  "truthy_str s = (s \<noteq> [])"

definition truthy_int :: "int option \<Rightarrow> bool" where
  "truthy_int v = (case v of None \<Rightarrow> False | Some n \<Rightarrow> n \<noteq> 0)"

definition truthy_bytes :: "bytes option \<Rightarrow> bool" where
  "truthy_bytes v = (case v of None \<Rightarrow> False | Some b \<Rightarrow> b \<noteq> [])"

text \<open>
  \<^verbatim>\<open>MenuItem.equals\<close>. The \<^verbatim>\<open>isinstance\<close> test is the type of \<open>other\<close>. The image
  tests are \<^verbatim>\<open>is None\<close> tests, not truthiness.
\<close>

definition equals :: "(real \<Rightarrow> real) \<Rightarrow> MenuItem \<Rightarrow> MenuItem \<Rightarrow> bool" where
  "equals rnd self other =
     (let basic_equality =
            (name self = name other \<and>
             description self = description other \<and>
             \<bar>rnd (price self - price other)\<bar> < rnd (1 / 100) \<and>
             category_id self = category_id other)
      in if \<not> basic_equality then False
         else
           let images_match =
                 (if image_data self = None \<and> image_data other = None then True
                  else if image_data self \<noteq> None \<and> image_data other \<noteq> None
                       then image_data self = image_data other
                       else False)
           in if images_match \<and> image_data self \<noteq> None
              then image_name self = image_name other
              else images_match)"

text \<open>\<^verbatim>\<open>MenuItem.is_complete\<close>: the \<^verbatim>\<open>bool\<close> of an \<^verbatim>\<open>and\<close> chain.\<close>

definition is_complete :: "MenuItem \<Rightarrow> bool" where
  "is_complete self =
     (truthy_str (name self) \<and>
      truthy_str (description self) \<and>
      price self > 0 \<and>
      truthy_int (category_id self) \<and>
      truthy_bytes (image_data self))"

section \<open>The database behind DatabaseManager\<close>

text \<open>
  The manager talks to a MySQL server through one connection. The state of the model is
  what the code can observe of both:
  \<^item> \<open>is_connected\<close>: \<^verbatim>\<open>self.connection\<close> is set and \<^verbatim>\<open>is_connected()\<close> holds;
  \<^item> \<open>server_up\<close>: whether \<^verbatim>\<open>mysql.connector.connect\<close> succeeds;
  \<^item> \<open>found_rows\<close>: the connector's \<^verbatim>\<open>FOUND_ROWS\<close> client flag. After an UPDATE,
    \<^verbatim>\<open>cursor.rowcount\<close> is the number of rows the statement changed, and with the flag
    the number of rows it matched. The flag is part of the connection settings
    (\<^verbatim>\<open>db/config.json\<close>), which are not among the sources;
  \<^item> the two tables, as lists of rows in storage order: a category is an id and a
    name, a menu item an id and the six columns the code writes;
  \<^item> \<open>next_id\<close>: the AUTO_INCREMENT counter of \<^verbatim>\<open>menu_items\<close>;
  \<^item> \<open>sent\<close>: the statements sent to the server so far, connection attempts included.

  The schema is not among the sources. The model stores the values it is given and
  rejects no statement, except an INSERT under a key that is already there; once the
  connection stands, no statement fails.
\<close>

record row =
  col_name :: string
  col_description :: string
  col_price :: real
  col_category_id :: "int option"
  col_image :: "bytes option"
  col_image_name :: "string option"

datatype statement =
    CONNECT
  | SELECT_BY_ID int
  | SELECT_SEARCH string
  | INSERT row
  | UPDATE int row
  | DELETE int
  | COMMIT
  | ROLLBACK

record db =
  is_connected :: bool
  server_up :: bool
  found_rows :: bool
  categories :: "(int \<times> string) list"
  menu_items :: "(int \<times> row) list"
  next_id :: int
  sent :: "statement list"

text \<open>
  The two exceptions the code raises itself: \<^verbatim>\<open>ValueError\<close> for a failed validation
  and the plain \<^verbatim>\<open>Exception\<close> it wraps every database error in.
\<close>

datatype error = ValueError string | Exception string

definition connect :: "db \<Rightarrow> (error + unit) \<times> db" where
  "connect s =
     (if server_up s
      then (Inr (), s\<lparr>is_connected := True, sent := sent s @ [CONNECT]\<rparr>)
      else (Inl (Exception ''Error connecting to database''),
            s\<lparr>sent := sent s @ [CONNECT]\<rparr>))"

definition ensure_connection :: "db \<Rightarrow> (error + unit) \<times> db" where
  "ensure_connection s = (if \<not> is_connected s then connect s else (Inr (), s))"

text \<open>
  The query both reads share: \<^verbatim>\<open>SELECT m.*, c.name AS category_name FROM menu_items m
  JOIN categories c ON m.category_id = c.id\<close>, each result row made a \<open>MenuItem\<close> the way
  the code does. A menu row whose category is not in \<^verbatim>\<open>categories\<close> is in no result.
\<close>

definition hydrate :: "int \<Rightarrow> row \<Rightarrow> string \<Rightarrow> MenuItem" where
  "hydrate k r cn =
     \<lparr>item_id = Some k, name = col_name r, description = col_description r,
      price = col_price r, category_id = col_category_id r, image_data = col_image r,
      image_name = col_image_name r, category_name = Some cn\<rparr>"

definition joined :: "db \<Rightarrow> MenuItem list" where
  "joined s =
     concat (map (\<lambda>(k, r).
        map (\<lambda>(c, cn). hydrate k r cn)
          (filter (\<lambda>(c, cn). col_category_id r = Some c) (categories s)))
       (menu_items s))"

definition fetchone :: "'a list \<Rightarrow> 'a option" where
  "fetchone rs = (case rs of [] \<Rightarrow> None | r # _ \<Rightarrow> Some r)"

definition select_by_id :: "db \<Rightarrow> int \<Rightarrow> MenuItem option" where
  "select_by_id s i = fetchone (filter (\<lambda>m. item_id m = Some i) (joined s))"

definition read_menu_item :: "db \<Rightarrow> int \<Rightarrow> (error + MenuItem option) \<times> db" where
  "read_menu_item s i =
     (case ensure_connection s of
        (Inl e, s1) \<Rightarrow> (Inl e, s1)
      | (Inr _, s1) \<Rightarrow>
          (Inr (select_by_id s1 i), s1\<lparr>sent := sent s1 @ [SELECT_BY_ID i]\<rparr>))"

section \<open>Create, update and delete\<close>

text \<open>
  The methods change the manager and, in \<^verbatim>\<open>has_changes\<close> and \<^verbatim>\<open>update_menu_item\<close>,
  the item they are given. A model function returns the result or the exception raised,
  the state afterwards and, where the item can change, the item afterwards.
\<close>

text \<open>The two assignments \<^verbatim>\<open>item.image = current_item.image\<close> and
  \<^verbatim>\<open>item.image_name = current_item.image_name\<close>.\<close>

definition use_existing_image :: "MenuItem \<Rightarrow> MenuItem \<Rightarrow> MenuItem" where
  "use_existing_image current_item new_item =
     new_item\<lparr>image_data := image_data current_item,
              image_name := image_name current_item\<rparr>"

definition has_changes ::
  "(real \<Rightarrow> real) \<Rightarrow> db \<Rightarrow> int \<Rightarrow> MenuItem \<Rightarrow> (error + bool) \<times> db \<times> MenuItem" where
  "has_changes rnd s i new_item =
     (case ensure_connection s of
        (Inl e, s1) \<Rightarrow> (Inl e, s1, new_item)
      | (Inr _, s1) \<Rightarrow>
          (case read_menu_item s1 i of
             (Inl e, s2) \<Rightarrow> (Inl e, s2, new_item)
           | (Inr None, s2) \<Rightarrow> (Inr True, s2, new_item)
           | (Inr (Some current_item), s2) \<Rightarrow>
               (let new_item' =
                      (if \<not> truthy_bytes (image_data new_item)
                       then use_existing_image current_item new_item
                       else new_item)
                in (Inr (\<not> equals rnd current_item new_item'), s2, new_item'))))"

definition row_of :: "MenuItem \<Rightarrow> row" where
  "row_of item =
     \<lparr>col_name = name item, col_description = description item, col_price = price item,
      col_category_id = category_id item, col_image = image_data item,
      col_image_name = image_name item\<rparr>"

text \<open>\<^verbatim>\<open>UPDATE menu_items SET ... WHERE id = i\<close> and the row count it reports.\<close>

definition sql_update :: "int \<Rightarrow> row \<Rightarrow> (int \<times> row) list \<Rightarrow> (int \<times> row) list" where
  "sql_update i new tbl = map (\<lambda>(k, r). if k = i then (k, new) else (k, r)) tbl"

definition update_rowcount :: "bool \<Rightarrow> int \<Rightarrow> row \<Rightarrow> (int \<times> row) list \<Rightarrow> nat" where
  "update_rowcount found i new tbl =
     (if found then length (filter (\<lambda>(k, r). k = i) tbl)
      else length (filter (\<lambda>(k, r). k = i \<and> r \<noteq> new) tbl))"

text \<open>Lines 214 to 218 of \<^verbatim>\<open>update_menu_item\<close>: the image carry-forward.\<close>

definition carry_forward :: "db \<Rightarrow> int \<Rightarrow> MenuItem \<Rightarrow> (error + unit) \<times> db \<times> MenuItem" where
  "carry_forward s i item =
     (if \<not> truthy_bytes (image_data item)
      then (case read_menu_item s i of
              (Inl e, s1) \<Rightarrow> (Inl e, s1, item)
            | (Inr None, s1) \<Rightarrow> (Inr (), s1, item)
            | (Inr (Some current_item), s1) \<Rightarrow>
                (Inr (), s1, use_existing_image current_item item))
      else (Inr (), s, item))"

text \<open>Lines 220 to 238: the UPDATE, the commit and \<^verbatim>\<open>cursor.rowcount > 0\<close>.\<close>

definition execute_update :: "db \<Rightarrow> int \<Rightarrow> MenuItem \<Rightarrow> bool \<times> db" where
  "execute_update s i item =
     (update_rowcount (found_rows s) i (row_of item) (menu_items s) > 0,
      s\<lparr>menu_items := sql_update i (row_of item) (menu_items s),
        sent := sent s @ [UPDATE i (row_of item), COMMIT]\<rparr>)"

definition update_menu_item ::
  "(real \<Rightarrow> real) \<Rightarrow> db \<Rightarrow> MenuItem \<Rightarrow> (error + bool) \<times> db \<times> MenuItem" where
  "update_menu_item rnd s item =
     (case item_id item of
        None \<Rightarrow> (Inl (ValueError ''Item ID is required for update''), s, item)
      | Some i \<Rightarrow>
          if i = 0 then (Inl (ValueError ''Item ID is required for update''), s, item)
          else
            (case ensure_connection s of
               (Inl e, s1) \<Rightarrow> (Inl e, s1, item)
             | (Inr _, s1) \<Rightarrow>
                 (case has_changes rnd s1 i item of
                    (Inl e, s2, item2) \<Rightarrow> (Inl e, s2, item2)
                  | (Inr False, s2, item2) \<Rightarrow> (Inr False, s2, item2)
                  | (Inr True, s2, item2) \<Rightarrow>
                      (case carry_forward s2 i item2 of
                         (Inl e, s3, item3) \<Rightarrow> (Inl e, s3, item3)
                       | (Inr _, s3, item3) \<Rightarrow>
                           (let (changed, s4) = execute_update s3 i item3
                            in (Inr changed, s4, item3))))))"

text \<open>
  \<^verbatim>\<open>create_menu_item\<close>. The new row gets the counter's value as its id
  (\<^verbatim>\<open>cursor.lastrowid\<close>); a key that is already there is the server's duplicate-key
  error, which the code rolls back and raises again.
\<close>

definition create_menu_item :: "db \<Rightarrow> MenuItem \<Rightarrow> (error + int) \<times> db" where
  "create_menu_item s item =
     (if \<not> is_complete item
      then (Inl (ValueError ''All fields are required to create a menu item''), s)
      else
        (case ensure_connection s of
           (Inl e, s1) \<Rightarrow> (Inl e, s1)
         | (Inr _, s1) \<Rightarrow>
             if next_id s1 \<in> set (map fst (menu_items s1))
             then (Inl (Exception ''Error creating menu item''),
                   s1\<lparr>sent := sent s1 @ [INSERT (row_of item), ROLLBACK]\<rparr>)
             else (Inr (next_id s1),
                   s1\<lparr>menu_items := menu_items s1 @ [(next_id s1, row_of item)],
                      next_id := next_id s1 + 1,
                      sent := sent s1 @ [INSERT (row_of item), COMMIT]\<rparr>)))"

definition delete_menu_item :: "db \<Rightarrow> int \<Rightarrow> (error + bool) \<times> db" where
  "delete_menu_item s i =
     (if i = 0 then (Inl (ValueError ''Item ID is required for deletion''), s)
      else
        (case ensure_connection s of
           (Inl e, s1) \<Rightarrow> (Inl e, s1)
         | (Inr _, s1) \<Rightarrow>
             (Inr (length (filter (\<lambda>(k, r). k = i) (menu_items s1)) > 0),
              s1\<lparr>menu_items := filter (\<lambda>(k, r). k \<noteq> i) (menu_items s1),
                 sent := sent s1 @ [DELETE i, COMMIT]\<rparr>)))"

section \<open>Search\<close>







definition to_upper :: "char \<Rightarrow> char" where
  "to_upper c =
     (if CHR ''a'' \<le> c \<and> c \<le> CHR ''z'' then char_of (of_char c - (32::nat)) else c)"





section \<open>Vocabulary of the statements\<close>

text \<open>
  \<open>available\<close>: the manager has a connection or can open one. \<open>opened s\<close> is \<open>s\<close>
  after a successful \<^verbatim>\<open>ensure_connection\<close>. \<open>carried cur item\<close> is the item after the
  stored image and name were carried onto it where its own image is falsy.
  \<open>image_columns\<close> lists the stored image and image name of every row.
\<close>

definition available :: "db \<Rightarrow> bool" where
  "available s = (is_connected s \<or> server_up s)"

definition opened :: "db \<Rightarrow> db" where
  "opened s =
     (if is_connected s then s else s\<lparr>is_connected := True, sent := sent s @ [CONNECT]\<rparr>)"

definition carried :: "MenuItem \<Rightarrow> MenuItem \<Rightarrow> MenuItem" where
  "carried current_item item =
     (if \<not> truthy_bytes (image_data item) then use_existing_image current_item item
      else item)"

definition image_columns :: "db \<Rightarrow> (int \<times> bytes option \<times> string option) list" where
  "image_columns s = map (\<lambda>(k, r). (k, col_image r, col_image_name r)) (menu_items s)"

text \<open>
  The ranking as the specification words it. \<open>contains_ci t s\<close>: \<open>s\<close> contains \<open>t\<close> as
  a substring, case ignored (lemma \<open>contains_ci_iff\<close> below). \<open>plain t\<close>: \<open>t\<close> has
  none of the characters LIKE reads specially. \<open>id_matches\<close>: the term is a number for
  \<^verbatim>\<open>int\<close> and the row's id.
\<close>

fun starts_with_ci :: "string \<Rightarrow> string \<Rightarrow> bool" where
  "starts_with_ci [] s = True"
| "starts_with_ci (p # ps) [] = False"
| "starts_with_ci (p # ps) (c # cs) = (to_upper p = to_upper c \<and> starts_with_ci ps cs)"

fun contains_ci :: "string \<Rightarrow> string \<Rightarrow> bool" where
  "contains_ci t [] = (t = [])"
| "contains_ci t (c # cs) = (starts_with_ci t (c # cs) \<or> contains_ci t cs)"




section \<open>The arithmetic of floats\<close>

text \<open>
  A Python float is an IEEE binary64 number, and the subtraction of two floats returns
  the float nearest to the exact difference, the one with the even significand when two
  are equally near; a decimal literal denotes the float nearest to it. \<open>rnd64 x\<close> is
  that float for the real \<open>x\<close>: the floats around \<open>x\<close> are the multiples of
  \<open>2 ^ ulp_exponent x\<close>, with 53 bits of precision from the power of two below
  \<open>\<bar>x\<bar>\<close> (its \<open>binade\<close>) and the spacing \<open>2 ^ - 1074\<close> of the subnormal numbers as the
  finest. Magnitudes beyond the largest float, where the machine returns an infinity,
  are rounded the same way.
\<close>

definition round_even :: "real \<Rightarrow> int" where
  "round_even y =
     (let n = \<lfloor>y\<rfloor>; d = y - of_int n
      in if d < 1 / 2 then n
         else if 1 / 2 < d then n + 1
         else if even n then n else n + 1)"

definition binade :: "real \<Rightarrow> int" where
  "binade x = \<lfloor>log 2 \<bar>x\<bar>\<rfloor>"

definition ulp_exponent :: "real \<Rightarrow> int" where
  "ulp_exponent x = max (binade x - 52) (- 1074)"

definition rnd64 :: "real \<Rightarrow> real" where
  "rnd64 x =
     (if x = 0 then 0
      else of_int (round_even (x / 2 powr of_int (ulp_exponent x))) *
           2 powr of_int (ulp_exponent x))"

section \<open>Example data\<close>

text \<open>
  \<open>exact\<close> is arithmetic that does not round. \<open>soundex\<close> is MySQL's \<^verbatim>\<open>SOUNDEX\<close> as
  its manual describes it: the first letter, then the codes of the letters that follow,
  vowels dropped first and repeated codes second, filled up to four characters; other
  characters are ignored. \<open>collate\<close> is the key of a collation that ignores the case of
  the letters a to z. They instantiate \<open>sx\<close> and \<open>coll\<close> in the examples only.
\<close>

definition exact :: "real \<Rightarrow> real" where
  "exact x = x"






definition tea :: MenuItem where
  "tea = \<lparr>item_id = Some 1, name = ''Tea'', description = ''Hot tea'', price = 5 / 2,
     category_id = Some 1, image_data = Some [0x89, 0x50], image_name = Some ''tea.png'',
     category_name = None\<rparr>"

definition iced_tea :: MenuItem where
  "iced_tea = tea\<lparr>price := 3, image_data := None, image_name := None\<rparr>"

definition cafe_tea :: MenuItem where
  "cafe_tea = tea\<lparr>category_name := Some ''Drinks''\<rparr>"

definition cafe :: db where
  "cafe = \<lparr>is_connected = False, server_up = True, found_rows = True,
     categories = [(1, ''Drinks''), (2, ''Food'')],
     menu_items = [(1, row_of tea)],
     next_id = 2, sent = []\<rparr>"




section \<open>Properties of the MenuItem predicates\<close>

text \<open>
  C1. Two items are equal exactly when their names and descriptions are identical, the
  absolute price difference the code computes is below its literal 0.01, the category
  ids are identical, and the images match: both absent, or both present with the same
  bytes and then also the same image name. With both images absent the image names are
  not compared.
\<close>

theorem equals_iff:
  "equals rnd a b \<longleftrightarrow>
     (name a = name b \<and> description a = description b \<and>
      \<bar>rnd (price a - price b)\<bar> < rnd (1 / 100) \<and>
      category_id a = category_id b \<and>
      ((image_data a = None \<and> image_data b = None) \<or>
       (\<exists>x. image_data a = Some x \<and> image_data b = Some x \<and>
            image_name a = image_name b)))"
  by (cases "image_data a"; cases "image_data b") (auto simp: equals_def Let_def)

text \<open>
  C4. An item is complete exactly when its name and description are non-empty, its image
  is present and non-empty, its category id is present and non-zero, and its price is
  positive.
\<close>

theorem is_complete_iff:
  "is_complete m \<longleftrightarrow>
     (name m \<noteq> [] \<and> description m \<noteq> [] \<and>
      (\<exists>b. image_data m = Some b \<and> b \<noteq> []) \<and>
      (\<exists>c. category_id m = Some c \<and> c \<noteq> 0) \<and>
      0 < price m)"
  by (auto simp: is_complete_def truthy_str_def truthy_int_def truthy_bytes_def
      split: option.splits)

section \<open>Rounding to the nearest float\<close>

text \<open>
  \<open>rnd64\<close> is monotone and commutes with negation, and the floats of 0.009 and 0.01
  are different.
\<close>

lemma round_even_of_int [simp]: "round_even (of_int n) = n"
  by (simp add: round_even_def)

lemma round_even_bounds:
  "\<lfloor>y\<rfloor> \<le> round_even y" "round_even y \<le> \<lfloor>y\<rfloor> + 1"
  by (simp_all add: round_even_def Let_def)

lemma round_even_close: "\<bar>of_int (round_even y) - y\<bar> \<le> 1 / 2"
  unfolding round_even_def Let_def by (auto; linarith)

lemma round_even_mono:
  assumes "a \<le> b"
  shows "round_even a \<le> round_even b"
proof (cases "\<lfloor>a\<rfloor> = \<lfloor>b\<rfloor>")
  case True
  with assms show ?thesis
    by (auto simp: round_even_def Let_def)
next
  case False
  with assms have "\<lfloor>a\<rfloor> < \<lfloor>b\<rfloor>"
    using floor_mono [of a b] by linarith
  then have "round_even a \<le> \<lfloor>b\<rfloor>"
    using round_even_bounds(2) [of a] by linarith
  then show ?thesis
    using round_even_bounds(1) [of b] by linarith
qed

lemma round_even_minus: "round_even (- y) = - round_even y"
proof (cases "y \<in> \<int>")
  case True
  then obtain n where "y = of_int n" by (auto elim: Ints_cases)
  then have "- y = of_int (- n)" by simp
  then show ?thesis
    unfolding \<open>y = of_int n\<close> by (simp only: round_even_of_int)
next
  case False
  have ne: "y \<noteq> of_int \<lfloor>y\<rfloor>"
  proof
    assume "y = of_int \<lfloor>y\<rfloor>"
    then have "y \<in> \<int>" by (metis Ints_of_int)
    with False show False by simp
  qed
  then have fl: "\<lfloor>- y\<rfloor> = - \<lfloor>y\<rfloor> - 1"
    by (simp add: floor_minus ceiling_altdef)
  have "of_int \<lfloor>y\<rfloor> < y" using ne of_int_floor_le [of y] by linarith
  then show ?thesis
    unfolding round_even_def Let_def fl by (auto; linarith)
qed

lemma binade_bounds:
  assumes "x \<noteq> 0"
  shows "2 powr of_int (binade x) \<le> \<bar>x\<bar>" "\<bar>x\<bar> < 2 powr of_int (binade x + 1)"
proof -
  have pos: "0 < \<bar>x\<bar>" using assms by simp
  have "of_int (binade x) \<le> log 2 \<bar>x\<bar>"
    unfolding binade_def by (rule of_int_floor_le)
  then show "2 powr of_int (binade x) \<le> \<bar>x\<bar>"
    using pos by (simp add: le_log_iff)
  have "log 2 \<bar>x\<bar> < of_int (binade x + 1)"
    unfolding binade_def by (simp; linarith)
  then show "\<bar>x\<bar> < 2 powr of_int (binade x + 1)"
    using pos by (simp add: log_less_iff)
qed

lemma binade_mono: "0 < x \<Longrightarrow> x \<le> y \<Longrightarrow> binade x \<le> binade y"
  unfolding binade_def by (intro floor_mono) simp

lemma binade_minus [simp]: "binade (- x) = binade x"
  by (simp add: binade_def)

lemma ulp_exponent_minus [simp]: "ulp_exponent (- x) = ulp_exponent x"
  by (simp add: ulp_exponent_def)

lemma rnd64_minus: "rnd64 (- x) = - rnd64 x"
  by (simp add: rnd64_def round_even_minus)

lemma rnd64_zero [simp]: "rnd64 0 = 0"
  by (simp add: rnd64_def)

lemma powr_int_diff:
  assumes "k \<le> e"
  shows "(2::real) powr of_int e / 2 powr of_int k = of_int (2 ^ nat (e - k))"
proof -
  have "(2::real) powr of_int e / 2 powr of_int k = (2::real) powr (of_int e - of_int k)"
    by (simp add: powr_diff)
  also have "of_int e - of_int k = real (nat (e - k))"
    using assms by simp
  also have "(2::real) powr real (nat (e - k)) = 2 ^ nat (e - k)"
    by (simp add: powr_realpow)
  finally show ?thesis by simp
qed

lemma rnd64_nonneg: "0 \<le> x \<Longrightarrow> 0 \<le> rnd64 x"
proof -
  assume "0 \<le> x"
  then have "0 \<le> x / 2 powr of_int (ulp_exponent x)" by simp
  then have "round_even 0 \<le> round_even (x / 2 powr of_int (ulp_exponent x))"
    by (rule round_even_mono)
  then show ?thesis
    using round_even_of_int [of 0] by (simp add: rnd64_def)
qed

lemma rnd64_mono_pos:
  assumes "0 < x" "x \<le> y"
  shows "rnd64 x \<le> rnd64 y"
proof -
  let ?kx = "ulp_exponent x" and ?ky = "ulp_exponent y"
  let ?ux = "(2::real) powr of_int ?kx" and ?uy = "(2::real) powr of_int ?ky"
  have y: "0 < y" using assms by simp
  have ux: "0 < ?ux" and uy: "0 < ?uy" by simp_all
  have bin: "binade x \<le> binade y" using assms by (rule binade_mono)
  then have k: "?kx \<le> ?ky" by (simp add: ulp_exponent_def)
  have rx: "rnd64 x = of_int (round_even (x / ?ux)) * ?ux"
    using assms(1) by (simp add: rnd64_def)
  have ry: "rnd64 y = of_int (round_even (y / ?uy)) * ?uy"
    using y by (simp add: rnd64_def)
  show ?thesis
  proof (cases "?kx = ?ky")
    case True
    have "x / ?ux \<le> y / ?ux" using assms(2) ux by (simp add: divide_right_mono)
    then have "round_even (x / ?ux) \<le> round_even (y / ?ux)" by (rule round_even_mono)
    then have "of_int (round_even (x / ?ux)) * ?ux \<le> of_int (round_even (y / ?ux)) * ?ux"
      using ux by (simp add: mult_right_mono)
    then show ?thesis unfolding rx ry True .
  next
    case False
    with k have lt: "?kx < ?ky" by simp
    then have ky: "?ky = binade y - 52" and kxe: "binade x - 52 \<le> ?kx"
      by (auto simp: ulp_exponent_def)
    let ?e = "binade y"
    let ?b = "(2::real) powr of_int ?e"
    have step: "binade x + 1 \<le> ?e" using lt ky kxe by linarith
    have "x < 2 powr of_int (binade x + 1)"
      using binade_bounds(2) [of x] assms(1) by simp
    also have "\<dots> \<le> ?b"
      using step by (intro powr_mono) simp_all
    finally have xb: "x \<le> ?b" by simp
    have yb: "?b \<le> y"
      using binade_bounds(1) [of y] y by simp
    have kxe': "?kx \<le> ?e" using lt ky by linarith
    have bx: "?b / ?ux = of_int (2 ^ nat (?e - ?kx))"
      using kxe' by (rule powr_int_diff)
    have "x / ?ux \<le> ?b / ?ux" using xb ux by (simp add: divide_right_mono)
    then have "round_even (x / ?ux) \<le> round_even (?b / ?ux)" by (rule round_even_mono)
    then have "round_even (x / ?ux) \<le> 2 ^ nat (?e - ?kx)"
      unfolding bx by (simp only: round_even_of_int)
    then have "of_int (round_even (x / ?ux)) \<le> ?b / ?ux"
      unfolding bx by (simp only: of_int_le_iff)
    then have low: "rnd64 x \<le> ?b"
      unfolding rx using ux by (simp add: field_simps)
    have kye: "?ky \<le> ?e" using ky by simp
    have byy: "?b / ?uy = of_int (2 ^ nat (?e - ?ky))"
      using kye by (rule powr_int_diff)
    have "?b / ?uy \<le> y / ?uy" using yb uy by (simp add: divide_right_mono)
    then have "round_even (?b / ?uy) \<le> round_even (y / ?uy)" by (rule round_even_mono)
    then have "2 ^ nat (?e - ?ky) \<le> round_even (y / ?uy)"
      unfolding byy by (simp only: round_even_of_int)
    then have "?b / ?uy \<le> of_int (round_even (y / ?uy))"
      unfolding byy by (simp only: of_int_le_iff)
    then have high: "?b \<le> rnd64 y"
      unfolding ry using uy by (simp add: field_simps)
    from low high show ?thesis by simp
  qed
qed

lemma mono_rnd64: "mono rnd64"
proof (rule monoI)
  fix x y :: real
  assume le: "x \<le> y"
  consider "0 < x" | "x \<le> 0" "0 \<le> y" | "y < 0" by linarith
  then show "rnd64 x \<le> rnd64 y"
  proof cases
    case 1
    then show ?thesis using le by (rule rnd64_mono_pos)
  next
    case 2
    have "rnd64 x \<le> 0"
      using rnd64_nonneg [of "- x"] 2(1) by (simp add: rnd64_minus)
    moreover have "0 \<le> rnd64 y" using 2(2) by (rule rnd64_nonneg)
    ultimately show ?thesis by simp
  next
    case 3
    then have "rnd64 (- y) \<le> rnd64 (- x)"
      using le by (intro rnd64_mono_pos) simp_all
    then show ?thesis by (simp add: rnd64_minus)
  qed
qed

lemma rnd64_in_binade:
  assumes "2 powr of_int e \<le> x" "x < 2 powr of_int (e + 1)" "- 1022 \<le> e"
  shows "rnd64 x = of_int (round_even (x / 2 powr of_int (e - 52))) * 2 powr of_int (e - 52)"
proof -
  have "0 < (2::real) powr of_int e" by simp
  with assms(1) have pos: "0 < x" by linarith
  have "of_int e \<le> log 2 x" using assms(1) pos by (simp add: le_log_iff)
  moreover have "log 2 x < of_int e + 1" using assms(2) pos by (simp add: log_less_iff)
  ultimately have "binade x = e"
    unfolding binade_def using pos by (simp add: floor_eq_iff)
  then have "ulp_exponent x = e - 52"
    using assms(3) by (simp add: ulp_exponent_def)
  then show ?thesis using pos by (simp add: rnd64_def)
qed

lemma rnd64_separates: "rnd64 (9 / 1000) < rnd64 (1 / 100)"
proof -
  have u: "(2::real) powr of_int (- 7 - 52) = 1 / 2 ^ 59"
    by (simp add: powr_minus_divide powr_realpow [of 2 59, simplified])
  have a: "rnd64 (9 / 1000) = of_int (round_even (9 / 1000 / (1 / 2 ^ 59))) * (1 / 2 ^ 59)"
    using rnd64_in_binade [of "- 7" "9 / 1000"] unfolding u
    by (simp add: powr_minus_divide powr_realpow [of 2 7, simplified] powr_realpow [of 2 6, simplified])
  have b: "rnd64 (1 / 100) = of_int (round_even (1 / 100 / (1 / 2 ^ 59))) * (1 / 2 ^ 59)"
    using rnd64_in_binade [of "- 7" "1 / 100"] unfolding u
    by (simp add: powr_minus_divide powr_realpow [of 2 7, simplified] powr_realpow [of 2 6, simplified])
  have "real_of_int (round_even (9 / 1000 / (1 / 2 ^ 59))) \<le> 9 / 1000 / (1 / 2 ^ 59) + 1 / 2"
    using round_even_close [of "9 / 1000 / (1 / 2 ^ 59)"] by linarith
  moreover have "1 / 100 / (1 / 2 ^ 59) - 1 / 2 \<le> real_of_int (round_even (1 / 100 / (1 / 2 ^ 59)))"
    using round_even_close [of "1 / 100 / (1 / 2 ^ 59)"] by linarith
  moreover have "(9::real) / 1000 / (1 / 2 ^ 59) + 1 / 2 < 1 / 100 / (1 / 2 ^ 59) - 1 / 2"
    by simp
  ultimately have "real_of_int (round_even (9 / 1000 / (1 / 2 ^ 59))) <
      real_of_int (round_even (1 / 100 / (1 / 2 ^ 59)))"
    by linarith
  then show ?thesis
    unfolding a b by (simp add: divide_strict_right_mono)
qed

text \<open>
  C7. Let two items differ in their price only. Whatever the float arithmetic, as long as
  its rounding is monotone, commutes with negation and keeps 0.009 below 0.01 (IEEE
  round-to-nearest does all three): a price difference of at most 0.009 makes the items
  equal, and a price difference of 0.01 or more makes them unequal.
\<close>

theorem equals_price_tolerance:
  assumes mono: "mono rnd"
    and odd: "\<And>x. rnd (- x) = - rnd x"
    and sep: "rnd (9 / 1000) < rnd (1 / 100)"
  shows "(\<bar>price a - q\<bar> \<le> 9 / 1000 \<longrightarrow> equals rnd a (a\<lparr>price := q\<rparr>)) \<and>
         (1 / 100 \<le> \<bar>price a - q\<bar> \<longrightarrow> \<not> equals rnd a (a\<lparr>price := q\<rparr>))"
proof (intro conjI impI)
  assume near: "\<bar>price a - q\<bar> \<le> 9 / 1000"
  have up: "rnd (price a - q) \<le> rnd (9 / 1000)"
    using near by (intro monoD [OF mono]) linarith
  have "rnd (- (9 / 1000)) \<le> rnd (price a - q)"
    using near by (intro monoD [OF mono]) linarith
  then have low: "- rnd (9 / 1000) \<le> rnd (price a - q)"
    by (simp add: odd)
  have "\<bar>rnd (price a - q)\<bar> < rnd (1 / 100)"
    using up low sep by simp
  then show "equals rnd a (a\<lparr>price := q\<rparr>)"
    by (cases "image_data a") (simp_all add: equals_def)
next
  assume far: "1 / 100 \<le> \<bar>price a - q\<bar>"
  have "rnd (1 / 100) \<le> \<bar>rnd (price a - q)\<bar>"
  proof (cases "0 \<le> price a - q")
    case True
    with far have "rnd (1 / 100) \<le> rnd (price a - q)"
      by (intro monoD [OF mono]) linarith
    then show ?thesis by linarith
  next
    case False
    with far have "rnd (price a - q) \<le> rnd (- (1 / 100))"
      by (intro monoD [OF mono]) linarith
    then show ?thesis by (simp add: odd)
  qed
  then show "\<not> equals rnd a (a\<lparr>price := q\<rparr>)"
    by (simp add: equals_def)
qed

text \<open>
  With the rounding of the machine: 2.5, 2.5078125 and 2.515625 are floats, the second
  0.0078125 and the third 0.015625 above the first.
\<close>

theorem equals_price_tolerance_witness:
  "equals rnd64 tea (tea\<lparr>price := 321 / 128\<rparr>) \<and>
   \<not> equals rnd64 tea (tea\<lparr>price := 161 / 64\<rparr>)"
proof -
  have p: "price tea = 5 / 2" by (simp add: tea_def)
  show ?thesis
    using equals_price_tolerance [OF mono_rnd64 rnd64_minus rnd64_separates, of tea "321 / 128"]
      equals_price_tolerance [OF mono_rnd64 rnd64_minus rnd64_separates, of tea "161 / 64"]
    by (simp add: p)
qed

lemma powr_m7: "(2::real) powr of_int (- 7) = 1 / 2 ^ 7"
  by (simp add: powr_minus_divide powr_realpow [of 2 7, simplified])

lemma powr_m6: "(2::real) powr of_int (- 7 + 1) = 1 / 2 ^ 6"
  by (simp add: powr_minus_divide powr_realpow [of 2 6, simplified])

lemma powr_m59: "(2::real) powr of_int (- 7 - 52) = 1 / 2 ^ 59"
  by (simp add: powr_minus_divide powr_realpow [of 2 59, simplified])

lemma rnd64_binade_m7:
  assumes "1 / 2 ^ 7 \<le> x" "x < 1 / 2 ^ 6"
  shows "rnd64 x = of_int (round_even (x * 2 ^ 59)) / 2 ^ 59"
  using rnd64_in_binade [of "- 7" x] assms unfolding powr_m7 powr_m6 powr_m59 by simp

lemma rnd64_hundredth: "5764607523034234 / 2 ^ 59 < rnd64 (1 / 100)"
proof -
  have "rnd64 (1 / 100) = of_int (round_even (1 / 100 * 2 ^ 59)) / 2 ^ 59"
    by (rule rnd64_binade_m7) simp_all
  moreover have "(1::real) / 100 * 2 ^ 59 - 1 / 2 \<le> of_int (round_even (1 / 100 * 2 ^ 59))"
    using round_even_close [of "1 / 100 * 2 ^ 59"] by linarith
  moreover have "(5764607523034234::real) < 1 / 100 * 2 ^ 59 - 1 / 2" by simp
  ultimately show ?thesis by (simp add: divide_strict_right_mono)
qed

lemma rnd64_difference: "rnd64 (5629499534213 / 2 ^ 49) = 5629499534213 / 2 ^ 49"
proof -
  have "rnd64 (5629499534213 / 2 ^ 49) =
      of_int (round_even (5629499534213 / 2 ^ 49 * 2 ^ 59)) / 2 ^ 59"
    by (rule rnd64_binade_m7) simp_all
  also have "(5629499534213::real) / 2 ^ 49 * 2 ^ 59 = of_int 5764607523034112" by simp
  also have "real_of_int (round_even (of_int 5764607523034112)) / 2 ^ 59 = 5629499534213 / 2 ^ 49"
    by (simp only: round_even_of_int) simp
  finally show ?thesis .
qed

text \<open>
  The difference the test reads is that of the floats, not of the decimals written for
  them. The float nearest to 2.51 is \<open>1413004383087493 / 2 ^ 49\<close>, less than 0.01 above
  2.5 and more than 0.009: an item at that price equals the item at 2.5.
\<close>

lemma equals_nearest_2_51:
  "equals rnd64 tea (tea\<lparr>price := 1413004383087493 / 2 ^ 49\<rparr>)"
proof -
  have "(5::real) / 2 - 1413004383087493 / 2 ^ 49 = - (5629499534213 / 2 ^ 49)" by simp
  then have "rnd64 (price tea - 1413004383087493 / 2 ^ 49) = - (5629499534213 / 2 ^ 49)"
    by (simp only: tea_def MenuItem.simps rnd64_minus rnd64_difference)
  moreover have "(5629499534213::real) / 2 ^ 49 < rnd64 (1 / 100)"
    using rnd64_hundredth by simp
  ultimately show ?thesis
    by (simp add: equals_def tea_def)
qed

section \<open>The connection and the reads\<close>

lemma ensure_connection_available:
  "available s \<Longrightarrow> ensure_connection s = (Inr (), opened s)"
  by (auto simp: available_def ensure_connection_def connect_def opened_def)

lemma ensure_connection_unavailable:
  "\<not> available s \<Longrightarrow>
   ensure_connection s =
     (Inl (Exception ''Error connecting to database''), s\<lparr>sent := sent s @ [CONNECT]\<rparr>)"
  by (simp add: available_def ensure_connection_def connect_def)

lemma ensure_connection_connected:
  "is_connected s \<Longrightarrow> ensure_connection s = (Inr (), s)"
  by (simp add: ensure_connection_def)

lemma is_connected_opened [simp]: "is_connected (opened s)"
  by (simp add: opened_def)

lemma tables_opened [simp]:
  "menu_items (opened s) = menu_items s" "categories (opened s) = categories s"
  "found_rows (opened s) = found_rows s"
  by (simp_all add: opened_def)

lemma ensure_connection_opened: "ensure_connection (opened s) = (Inr (), opened s)"
  by (simp add: ensure_connection_connected)

lemma joined_cong:
  "menu_items t = menu_items s \<Longrightarrow> categories t = categories s \<Longrightarrow> joined t = joined s"
  unfolding joined_def by simp

lemma select_by_id_cong:
  "menu_items t = menu_items s \<Longrightarrow> categories t = categories s \<Longrightarrow>
   select_by_id t i = select_by_id s i"
  using joined_cong [of t s] by (simp add: select_by_id_def)

lemma select_by_id_opened [simp]: "select_by_id (opened s) i = select_by_id s i"
  using select_by_id_cong [of "opened s" s i] by simp

text \<open>A row the read returns is a row of the table whose category exists.\<close>

lemma select_by_id_Some:
  assumes "select_by_id s i = Some m"
  shows "\<exists>r c cn. (i, r) \<in> set (menu_items s) \<and> (c, cn) \<in> set (categories s) \<and>
           col_category_id r = Some c \<and> m = hydrate i r cn"
proof -
  from assms obtain ms where "filter (\<lambda>m. item_id m = Some i) (joined s) = m # ms"
    by (auto simp: select_by_id_def fetchone_def split: list.splits)
  then have "m \<in> set (filter (\<lambda>m. item_id m = Some i) (joined s))"
    by simp
  then have "m \<in> set (joined s)" and "item_id m = Some i" by simp_all
  then show ?thesis
    by (auto simp: joined_def hydrate_def)
qed

lemma read_menu_item_connected:
  "is_connected s \<Longrightarrow>
   read_menu_item s i = (Inr (select_by_id s i), s\<lparr>sent := sent s @ [SELECT_BY_ID i]\<rparr>)"
  by (simp add: read_menu_item_def ensure_connection_connected)

section \<open>What an update does\<close>

lemma carried_idem: "carried cur (carried cur item) = carried cur item"
  by (simp add: carried_def use_existing_image_def)

lemma carried_falsy:
  "\<not> truthy_bytes (image_data (carried cur item)) \<Longrightarrow>
   use_existing_image cur (carried cur item) = carried cur item"
  by (auto simp: carried_def use_existing_image_def split: if_splits)

lemma row_of_hydrate [simp]: "row_of (hydrate k r cn) = r"
  by (simp add: row_of_def hydrate_def)

lemma has_changes_connected:
  "is_connected s \<Longrightarrow>
   has_changes rnd s i item =
     (case select_by_id s i of
        None \<Rightarrow> (Inr True, s\<lparr>sent := sent s @ [SELECT_BY_ID i]\<rparr>, item)
      | Some cur \<Rightarrow>
          (Inr (\<not> equals rnd cur (carried cur item)),
           s\<lparr>sent := sent s @ [SELECT_BY_ID i]\<rparr>, carried cur item))"
  by (simp add: has_changes_def ensure_connection_connected read_menu_item_connected
      carried_def Let_def split: option.splits)

lemma has_changes_opened:
  "available s \<Longrightarrow> has_changes rnd s i item = has_changes rnd (opened s) i item"
  by (simp add: has_changes_def ensure_connection_available ensure_connection_opened)

lemma has_changes_available:
  assumes "available s"
  shows "has_changes rnd s i item =
     (case select_by_id s i of
        None \<Rightarrow> (Inr True, (opened s)\<lparr>sent := sent (opened s) @ [SELECT_BY_ID i]\<rparr>, item)
      | Some cur \<Rightarrow>
          (Inr (\<not> equals rnd cur (carried cur item)),
           (opened s)\<lparr>sent := sent (opened s) @ [SELECT_BY_ID i]\<rparr>, carried cur item))"
  by (simp add: has_changes_opened [OF assms] has_changes_connected)

lemma carry_forward_connected:
  "is_connected s \<Longrightarrow>
   carry_forward s i item =
     (if truthy_bytes (image_data item) then (Inr (), s, item)
      else (case select_by_id s i of
              None \<Rightarrow> (Inr (), s\<lparr>sent := sent s @ [SELECT_BY_ID i]\<rparr>, item)
            | Some cur \<Rightarrow>
                (Inr (), s\<lparr>sent := sent s @ [SELECT_BY_ID i]\<rparr>, use_existing_image cur item)))"
  by (simp add: carry_forward_def read_menu_item_connected split: option.splits)

text \<open>
  An update over a standing connection, path by path: the row is not found and the item
  is written as it is; the row is found and equals the item, and nothing is written; the
  row is found and differs, and the item is written with the stored image where it has
  none.
\<close>

lemma update_menu_item_connected:
  assumes "item_id item = Some i" "i \<noteq> 0" "is_connected s"
  shows "update_menu_item rnd s item =
     (let s2 = s\<lparr>sent := sent s @ [SELECT_BY_ID i]\<rparr> in
      case select_by_id s i of
        None \<Rightarrow>
          (let s3 = (if truthy_bytes (image_data item) then s2
                     else s2\<lparr>sent := sent s2 @ [SELECT_BY_ID i]\<rparr>)
           in (Inr (fst (execute_update s3 i item)), snd (execute_update s3 i item), item))
      | Some cur \<Rightarrow>
          if equals rnd cur (carried cur item) then (Inr False, s2, carried cur item)
          else
            (let s3 = (if truthy_bytes (image_data (carried cur item)) then s2
                       else s2\<lparr>sent := sent s2 @ [SELECT_BY_ID i]\<rparr>)
             in (Inr (fst (execute_update s3 i (carried cur item))),
                 snd (execute_update s3 i (carried cur item)), carried cur item)))"
proof -
  let ?s2 = "s\<lparr>sent := sent s @ [SELECT_BY_ID i]\<rparr>"
  have c2: "is_connected ?s2" using assms(3) by simp
  have sel2: "select_by_id ?s2 i = select_by_id s i"
    using select_by_id_cong [of ?s2 s i] by simp
  show ?thesis
  proof (cases "select_by_id s i")
    case None
    then show ?thesis
      using assms sel2
      by (simp add: update_menu_item_def ensure_connection_connected has_changes_connected
          carry_forward_connected [OF c2] Let_def split: prod.splits)
  next
    case (Some cur)
    then show ?thesis
      using assms sel2 carried_falsy [of cur item]
      by (simp add: update_menu_item_def ensure_connection_connected has_changes_connected
          carry_forward_connected [OF c2] Let_def split: prod.splits)
  qed
qed

lemma update_menu_item_opened:
  "available s \<Longrightarrow> item_id item = Some i \<Longrightarrow> i \<noteq> 0 \<Longrightarrow>
   update_menu_item rnd s item = update_menu_item rnd (opened s) item"
  by (simp add: update_menu_item_def ensure_connection_available ensure_connection_opened)

lemma update_menu_item_unchanged:
  assumes "item_id item = Some i" "i \<noteq> 0" "available s" "select_by_id s i = Some cur"
    "equals rnd cur (carried cur item)"
  shows "update_menu_item rnd s item =
     (Inr False, (opened s)\<lparr>sent := sent (opened s) @ [SELECT_BY_ID i]\<rparr>, carried cur item)"
  using assms(4,5)
  by (simp add: update_menu_item_opened [OF assms(3,1,2)]
      update_menu_item_connected [OF assms(1,2)] Let_def)

lemma update_menu_item_item:
  assumes "available s" "item_id item = Some i" "i \<noteq> 0" "select_by_id s i = Some cur"
  shows "snd (snd (update_menu_item rnd s item)) = carried cur item"
  using assms(4)
  by (simp add: update_menu_item_opened [OF assms(1-3)]
      update_menu_item_connected [OF assms(2,3)] Let_def)

lemma update_menu_item_tables:
  assumes "item_id item = Some i"
  shows "menu_items (fst (snd (update_menu_item rnd s item))) = menu_items s \<or>
         (i \<noteq> 0 \<and> available s \<and>
          menu_items (fst (snd (update_menu_item rnd s item))) =
            sql_update i (row_of (snd (snd (update_menu_item rnd s item)))) (menu_items s))"
proof (cases "i \<noteq> 0 \<and> available s")
  case False
  then show ?thesis
    using assms
    by (auto simp: update_menu_item_def ensure_connection_unavailable)
next
  case True
  then show ?thesis
    using assms
    by (simp add: update_menu_item_opened [of s item i]
        update_menu_item_connected [of item i "opened s"] Let_def execute_update_def
        split: option.splits)
qed

lemma first_update_shape:
  assumes "available s" "item_id item = Some i" "i \<noteq> 0"
    and "update_menu_item rnd s item = (r1, s1, item1)"
  shows "is_connected s1 \<and> categories s1 = categories s \<and> found_rows s1 = found_rows s \<and>
         item_id item1 = Some i \<and>
         (item1 = item \<or>
          (\<not> truthy_bytes (image_data item) \<and> (\<exists>c. item1 = use_existing_image c item))) \<and>
         ((\<exists>cur. select_by_id s i = Some cur \<and> equals rnd cur item1 \<and>
                 item1 = carried cur item \<and> menu_items s1 = menu_items s) \<or>
          menu_items s1 = sql_update i (row_of item1) (menu_items s))"
proof -
  have id_carried: "item_id (carried cur item) = Some i" for cur
    using assms(2) by (simp add: carried_def use_existing_image_def)
  have shape: "carried cur item = item \<or>
      (\<not> truthy_bytes (image_data item) \<and> (\<exists>c. carried cur item = use_existing_image c item))"
    for cur
    by (auto simp: carried_def)
  show ?thesis
    using assms(4) assms(2) id_carried shape
    unfolding update_menu_item_opened [OF assms(1-3)]
      update_menu_item_connected [OF assms(2,3) is_connected_opened]
    by (auto simp: Let_def execute_update_def split: option.splits if_splits)
qed

text \<open>Facts about the UPDATE statement.\<close>

lemma sql_update_rows:
  "(k, r) \<in> set (sql_update i new tbl) \<Longrightarrow> k = i \<Longrightarrow> r = new"
  by (auto simp: sql_update_def split: if_splits)

lemma sql_update_idem: "sql_update i new (sql_update i new tbl) = sql_update i new tbl"
  by (induction tbl) (auto simp: sql_update_def)

lemma update_rowcount_again:
  "update_rowcount False i new (sql_update i new tbl) = 0"
  by (auto simp: update_rowcount_def filter_empty_conv dest: sql_update_rows)

lemma image_columns_sql_update:
  assumes "\<And>r. (i, r) \<in> set tbl \<Longrightarrow>
            col_image r = col_image new \<and> col_image_name r = col_image_name new"
  shows "map (\<lambda>(k, r). (k, col_image r, col_image_name r)) (sql_update i new tbl) =
         map (\<lambda>(k, r). (k, col_image r, col_image_name r)) tbl"
  using assms by (induction tbl) (auto simp: sql_update_def)

text \<open>An item equals the stored row it was written to, if subtracting a float from
  itself gives less than 0.01.\<close>

lemma equals_same_row:
  assumes "row_of a = row_of b" "\<bar>rnd 0\<bar> < rnd (1 / 100)"
  shows "equals rnd a b"
proof -
  from assms(1) have "name a = name b" "description a = description b" "price a = price b"
    "category_id a = category_id b" "image_data a = image_data b"
    "image_name a = image_name b"
    by (simp_all add: row_of_def)
  with assms(2) show ?thesis
    by (cases "image_data b") (simp_all add: equals_def)
qed

lemma carried_same_row:
  assumes "row_of a = row_of b"
  shows "carried a b = b"
proof -
  from assms have "image_data a = image_data b" "image_name a = image_name b"
    by (simp_all add: row_of_def)
  then show ?thesis
    by (simp add: carried_def use_existing_image_def)
qed

text \<open>The example table.\<close>

lemmas crud_defs =
  update_menu_item_def has_changes_def carry_forward_def execute_update_def
  read_menu_item_def ensure_connection_def connect_def select_by_id_def joined_def
  fetchone_def hydrate_def row_of_def use_existing_image_def update_rowcount_def
  sql_update_def equals_def truthy_bytes_def truthy_int_def truthy_str_def exact_def

lemma select_cafe: "select_by_id cafe 1 = Some cafe_tea"
  by (simp add: select_by_id_def joined_def cafe_def fetchone_def hydrate_def row_of_def
      tea_def cafe_tea_def)

lemma available_cafe: "available cafe"
  by (simp add: available_def cafe_def)

lemma item_id_iced_tea: "item_id iced_tea = Some 1"
  by (simp add: iced_tea_def tea_def)

lemma update_cafe_iced_tea: "fst (update_menu_item exact cafe iced_tea) = Inr True"
  by (simp add: crud_defs cafe_def iced_tea_def tea_def)

section \<open>Validation\<close>

text \<open>
  C5. Creating an incomplete item, updating an item whose id is unset or zero, and
  deleting with the id zero raise the validation error and leave the whole state as it
  was: the tables, the connection and the list of statements sent, so nothing reached
  the store. The item is unchanged as well.
\<close>

theorem validation_before_storage:
  "(\<not> is_complete item \<longrightarrow>
      create_menu_item s item =
        (Inl (ValueError ''All fields are required to create a menu item''), s)) \<and>
   (\<not> truthy_int (item_id item) \<longrightarrow>
      update_menu_item rnd s item =
        (Inl (ValueError ''Item ID is required for update''), s, item)) \<and>
   (i = 0 \<longrightarrow>
      delete_menu_item s i = (Inl (ValueError ''Item ID is required for deletion''), s))"
  by (auto simp: create_menu_item_def update_menu_item_def delete_menu_item_def
      truthy_int_def split: option.splits)

theorem validation_before_storage_witness:
  "create_menu_item cafe (tea\<lparr>description := []\<rparr>) =
     (Inl (ValueError ''All fields are required to create a menu item''), cafe) \<and>
   update_menu_item exact cafe (tea\<lparr>item_id := None\<rparr>) =
     (Inl (ValueError ''Item ID is required for update''), cafe, tea\<lparr>item_id := None\<rparr>) \<and>
   delete_menu_item cafe 0 = (Inl (ValueError ''Item ID is required for deletion''), cafe)"
  using validation_before_storage [where item = "tea\<lparr>description := []\<rparr>" and s = cafe]
    validation_before_storage [where item = "tea\<lparr>item_id := None\<rparr>" and s = cafe
      and rnd = exact and i = 0]
  by (simp add: is_complete_def truthy_str_def truthy_int_def)

section \<open>Updates that change nothing\<close>

text \<open>
  C2. Let the item have a set id, let the read find a stored row under that id, and let
  that row equal the item once the stored image and name are carried onto an item
  without image. Then the update returns false, sends nothing but the read (after
  opening the connection if it has to), and leaves the table as it is.
\<close>

theorem update_without_changes:
  assumes "item_id item = Some i" "i \<noteq> 0" "available s"
    and "select_by_id s i = Some cur"
    and "equals rnd cur (carried cur item)"
  shows "update_menu_item rnd s item =
           (Inr False, (opened s)\<lparr>sent := sent (opened s) @ [SELECT_BY_ID i]\<rparr>,
            carried cur item) \<and>
         menu_items (fst (snd (update_menu_item rnd s item))) = menu_items s"
  using assms by (simp add: update_menu_item_unchanged)

theorem update_without_changes_witness:
  "update_menu_item exact cafe (tea\<lparr>image_data := None, image_name := None\<rparr>) =
     (Inr False, (opened cafe)\<lparr>sent := sent (opened cafe) @ [SELECT_BY_ID 1]\<rparr>, tea) \<and>
   menu_items
     (fst (snd (update_menu_item exact cafe (tea\<lparr>image_data := None, image_name := None\<rparr>)))) =
   menu_items cafe"
proof -
  let ?item = "tea\<lparr>image_data := None, image_name := None\<rparr>"
  have c: "carried cafe_tea ?item = tea"
    by (simp add: carried_def use_existing_image_def truthy_bytes_def cafe_tea_def tea_def)
  have e: "equals exact cafe_tea (carried cafe_tea ?item)"
    unfolding c by (simp add: equals_def cafe_tea_def tea_def exact_def)
  have i: "item_id ?item = Some 1" by (simp add: tea_def)
  show ?thesis
    using update_without_changes [OF i _ available_cafe select_cafe e] by (simp add: c)
qed

section \<open>The stored image survives an update without image\<close>

text \<open>
  C3. Let \<^verbatim>\<open>id\<close> be the primary key of the table, let the item have no image (none, or
  an empty one), and let the read find a stored row under the item's id. Then after the
  update, whatever it returns, every row has the image and the image name it had before.
\<close>

theorem update_keeps_stored_image:
  assumes pk: "distinct (map fst (menu_items s))"
    and ident: "item_id item = Some i"
    and absent: "\<not> truthy_bytes (image_data item)"
    and stored: "select_by_id s i = Some cur"
  shows "image_columns (fst (snd (update_menu_item rnd s item))) = image_columns s"
proof -
  let ?u = "update_menu_item rnd s item"
  from select_by_id_Some [OF stored] obtain r0 cn where
    r0: "(i, r0) \<in> set (menu_items s)" and cur: "cur = hydrate i r0 cn"
    by blast
  have same: "r = r0" if "(i, r) \<in> set (menu_items s)" for r
    using pk that r0 by (rule eq_key_imp_eq_value)
  consider (untouched) "menu_items (fst (snd ?u)) = menu_items s"
    | (written) "menu_items (fst (snd ?u)) = sql_update i (row_of (snd (snd ?u))) (menu_items s)"
      "i \<noteq> 0" "available s"
    using update_menu_item_tables [OF ident, of rnd s] by blast
  then show ?thesis
  proof cases
    case untouched
    then show ?thesis by (simp add: image_columns_def)
  next
    case written
    have item': "snd (snd ?u) = use_existing_image cur item"
      using update_menu_item_item [OF written(3) ident written(2) stored, of rnd] absent
      by (simp add: carried_def)
    have "col_image r = col_image (row_of (snd (snd ?u))) \<and>
          col_image_name r = col_image_name (row_of (snd (snd ?u)))"
      if "(i, r) \<in> set (menu_items s)" for r
      using same [OF that]
      by (simp add: item' cur row_of_def use_existing_image_def hydrate_def)
    then show ?thesis
      unfolding image_columns_def written(1) by (rule image_columns_sql_update)
  qed
qed

theorem update_keeps_stored_image_witness:
  "image_columns (fst (snd (update_menu_item exact cafe iced_tea))) = image_columns cafe \<and>
   image_columns cafe = [(1, Some [0x89, 0x50], Some ''tea.png'')] \<and>
   fst (update_menu_item exact cafe iced_tea) = Inr True"
proof -
  have pk: "distinct (map fst (menu_items cafe))" by (simp add: cafe_def)
  have a: "\<not> truthy_bytes (image_data iced_tea)"
    by (simp add: iced_tea_def truthy_bytes_def)
  have c: "image_columns cafe = [(1, Some [0x89, 0x50], Some ''tea.png'')]"
    by (simp add: image_columns_def cafe_def row_of_def tea_def)
  show ?thesis
    using update_keeps_stored_image [OF pk item_id_iced_tea a select_cafe, of exact] c
      update_cafe_iced_tea
    by simp
qed

section \<open>The caller's item is changed in place\<close>

text \<open>
  C9. Let the item have no image (none, or an empty one) and let the read find a stored
  row under the id. Then \<^verbatim>\<open>has_changes\<close> leaves the caller's item with the stored
  image and image name in place of its own, and so does \<^verbatim>\<open>update_menu_item\<close>,
  whatever it returns, false included.
\<close>

theorem has_changes_overwrites_image:
  assumes "available s"
    and "\<not> truthy_bytes (image_data item)"
    and "select_by_id s i = Some cur"
  shows "snd (snd (has_changes rnd s i item)) =
           item\<lparr>image_data := image_data cur, image_name := image_name cur\<rparr> \<and>
         (item_id item = Some i \<and> i \<noteq> 0 \<longrightarrow>
            snd (snd (update_menu_item rnd s item)) =
              item\<lparr>image_data := image_data cur, image_name := image_name cur\<rparr>)"
  using assms
  by (auto simp: has_changes_available update_menu_item_item carried_def
      use_existing_image_def)

theorem has_changes_overwrites_image_witness:
  "snd (snd (has_changes exact cafe 1 (tea\<lparr>image_data := None, image_name := None\<rparr>))) = tea \<and>
   snd (snd (update_menu_item exact cafe (tea\<lparr>image_data := None, image_name := None\<rparr>))) = tea \<and>
   fst (update_menu_item exact cafe (tea\<lparr>image_data := None, image_name := None\<rparr>)) = Inr False"
proof -
  let ?item = "tea\<lparr>image_data := None, image_name := None\<rparr>"
  have a: "\<not> truthy_bytes (image_data ?item)" by (simp add: truthy_bytes_def)
  have i: "item_id ?item = Some 1" by (simp add: tea_def)
  have t: "tea\<lparr>image_data := image_data cafe_tea, image_name := image_name cafe_tea\<rparr> = tea"
    by (simp add: cafe_tea_def tea_def)
  have c: "carried cafe_tea ?item = tea"
    by (simp add: carried_def use_existing_image_def truthy_bytes_def cafe_tea_def tea_def)
  have e: "equals exact cafe_tea (carried cafe_tea ?item)"
    unfolding c by (simp add: equals_def cafe_tea_def tea_def exact_def)
  have f: "fst (update_menu_item exact cafe ?item) = Inr False"
    by (simp add: update_menu_item_unchanged [OF i _ available_cafe select_cafe e])
  show ?thesis
    using has_changes_overwrites_image [OF available_cafe a select_cafe, of exact] i f
    by (simp add: t)
qed

section \<open>Updating twice\<close>

text \<open>
  C8. Let the item have a set id and let a first update have returned, with whatever
  result. If the row is visible to the read when the second update is made, the second
  update finds the stored row equal to the item, sends nothing but the read and returns
  false; that holds for the item object the first call has left behind and for a fresh
  item with the data of the first call alike. If the row is not visible (its category
  is missing), the second update still returns false and leaves the table as it is,
  provided the connector counts changed rows. The float arithmetic must give less than
  0.01 for a price minus itself.
\<close>

theorem second_update_returns_false:
  assumes ident: "item_id item = Some i" "i \<noteq> 0"
    and avail: "available s"
    and float: "\<bar>rnd 0\<bar> < rnd (1 / 100)"
    and first: "update_menu_item rnd s item = (r1, s1, item1)"
    and visible: "found_rows s \<longrightarrow> select_by_id s1 i \<noteq> None"
  shows "(\<exists>s2. update_menu_item rnd s1 item1 = (Inr False, s2, item1) \<and>
               menu_items s2 = menu_items s1) \<and>
         (select_by_id s1 i \<noteq> None \<longrightarrow>
            update_menu_item rnd s1 item1 =
              (Inr False, s1\<lparr>sent := sent s1 @ [SELECT_BY_ID i]\<rparr>, item1) \<and>
            update_menu_item rnd s1 item =
              (Inr False, s1\<lparr>sent := sent s1 @ [SELECT_BY_ID i]\<rparr>, item1))"
proof -
  from first_update_shape [OF avail ident first]
  have conn: "is_connected s1" and cats: "categories s1 = categories s"
    and flag: "found_rows s1 = found_rows s" and id1: "item_id item1 = Some i"
    and rel: "item1 = item \<or>
              (\<not> truthy_bytes (image_data item) \<and> (\<exists>c. item1 = use_existing_image c item))"
    and shape: "(\<exists>cur. select_by_id s i = Some cur \<and> equals rnd cur item1 \<and>
                   item1 = carried cur item \<and> menu_items s1 = menu_items s) \<or>
                menu_items s1 = sql_update i (row_of item1) (menu_items s)"
    by blast+
  note second = update_menu_item_connected [OF id1 ident(2) conn, of rnd]
  note fresh = update_menu_item_connected [OF ident conn, of rnd]
  show ?thesis
  proof (cases "select_by_id s1 i")
    case (Some cur1)
    have "carried cur1 item1 = item1 \<and> equals rnd cur1 item1 \<and> carried cur1 item = item1"
      using shape
    proof
      assume "\<exists>cur. select_by_id s i = Some cur \<and> equals rnd cur item1 \<and>
                item1 = carried cur item \<and> menu_items s1 = menu_items s"
      then obtain cur where cur: "select_by_id s i = Some cur" "equals rnd cur item1"
        "item1 = carried cur item" "menu_items s1 = menu_items s"
        by blast
      have "select_by_id s1 i = select_by_id s i"
        using cur(4) cats by (rule select_by_id_cong)
      with Some cur(1) have "cur1 = cur" by simp
      then show ?thesis
        using cur(2) carried_idem [of cur item] by (simp add: cur(3))
    next
      assume written: "menu_items s1 = sql_update i (row_of item1) (menu_items s)"
      from select_by_id_Some [OF Some] obtain r cn where
        r: "(i, r) \<in> set (menu_items s1)" and cur1: "cur1 = hydrate i r cn"
        by blast
      from r have "r = row_of item1"
        unfolding written by (rule sql_update_rows) simp
      then have same: "row_of cur1 = row_of item1"
        by (simp add: cur1)
      then have images: "image_data cur1 = image_data item1" "image_name cur1 = image_name item1"
        by (simp_all add: row_of_def)
      have "carried cur1 item = item1"
        using rel
      proof
        assume "item1 = item"
        then show ?thesis using same by (simp add: carried_same_row)
      next
        assume "\<not> truthy_bytes (image_data item) \<and> (\<exists>c. item1 = use_existing_image c item)"
        then obtain c where "\<not> truthy_bytes (image_data item)" "item1 = use_existing_image c item"
          by blast
        then show ?thesis
          using images by (simp add: carried_def use_existing_image_def)
      qed
      then show ?thesis
        using same float by (simp add: equals_same_row carried_same_row)
    qed
    then show ?thesis
      using Some by (simp add: second fresh Let_def)
  next
    case None
    with visible flag have changed_rows: "\<not> found_rows s1" by auto
    from shape None cats have written: "menu_items s1 = sql_update i (row_of item1) (menu_items s)"
      using select_by_id_cong [of s1 s i] by auto
    have "update_rowcount False i (row_of item1) (menu_items s1) = 0"
      unfolding written by (rule update_rowcount_again)
    moreover have "sql_update i (row_of item1) (menu_items s1) = menu_items s1"
      unfolding written by (rule sql_update_idem)
    ultimately show ?thesis
      using None changed_rows by (simp add: second Let_def execute_update_def)
  qed
qed

theorem second_update_returns_false_witness:
  "fst (update_menu_item exact cafe iced_tea) = Inr True \<and>
   fst (update_menu_item exact
          (fst (snd (update_menu_item exact cafe iced_tea)))
          (snd (snd (update_menu_item exact cafe iced_tea)))) = Inr False \<and>
   fst (update_menu_item exact (fst (snd (update_menu_item exact cafe iced_tea))) iced_tea) =
     Inr False"
proof -
  obtain r1 s1 item1 where first: "update_menu_item exact cafe iced_tea = (r1, s1, item1)"
    by (cases "update_menu_item exact cafe iced_tea") auto
  have "select_by_id (fst (snd (update_menu_item exact cafe iced_tea))) 1 \<noteq> None"
    by (simp add: crud_defs cafe_def iced_tea_def tea_def)
  with first have v: "select_by_id s1 1 \<noteq> None" by simp
  have f: "\<bar>exact 0\<bar> < exact (1 / 100)" by (simp add: exact_def)
  from second_update_returns_false [OF item_id_iced_tea _ available_cafe f first] v
  have "fst (update_menu_item exact s1 item1) = Inr False"
    "fst (update_menu_item exact s1 iced_tea) = Inr False"
    by auto
  with update_cafe_iced_tea first show ?thesis by simp
qed

section \<open>The empty image\<close>

text \<open>
  C10. An image that is present but empty is treated as an absent one wherever the code
  tests the image for truthiness: \<^verbatim>\<open>is_complete\<close> is false for it, so
  \<^verbatim>\<open>create_menu_item\<close> raises the validation error; and where the read finds a stored
  row, \<^verbatim>\<open>has_changes\<close> and \<^verbatim>\<open>update_menu_item\<close> do with it exactly what they do with
  no image, copying the stored image and name. \<^verbatim>\<open>equals\<close> tests for \<^verbatim>\<open>None\<close>
  instead: to it an empty image is present, and an item with an empty image never
  equals one without image.
\<close>

theorem empty_image_as_absent:
  "\<not> is_complete (item\<lparr>image_data := Some []\<rparr>) \<and>
   create_menu_item s (item\<lparr>image_data := Some []\<rparr>) =
     (Inl (ValueError ''All fields are required to create a menu item''), s) \<and>
   (available s \<and> select_by_id s i = Some cur \<longrightarrow>
      has_changes rnd s i (item\<lparr>image_data := Some []\<rparr>) =
        has_changes rnd s i (item\<lparr>image_data := None\<rparr>) \<and>
      snd (snd (has_changes rnd s i (item\<lparr>image_data := Some []\<rparr>))) =
        item\<lparr>image_data := image_data cur, image_name := image_name cur\<rparr>) \<and>
   (available s \<and> select_by_id s i = Some cur \<and> item_id item = Some i \<and> i \<noteq> 0 \<longrightarrow>
      update_menu_item rnd s (item\<lparr>image_data := Some []\<rparr>) =
        update_menu_item rnd s (item\<lparr>image_data := None\<rparr>)) \<and>
   \<not> equals rnd (a\<lparr>image_data := None\<rparr>) (b\<lparr>image_data := Some []\<rparr>) \<and>
   \<not> equals rnd (a\<lparr>image_data := Some []\<rparr>) (b\<lparr>image_data := None\<rparr>)"
proof -
  have c: "carried cur (item\<lparr>image_data := Some []\<rparr>) = carried cur (item\<lparr>image_data := None\<rparr>)"
    "carried cur (item\<lparr>image_data := Some []\<rparr>) =
       item\<lparr>image_data := image_data cur, image_name := image_name cur\<rparr>"
    by (simp_all add: carried_def use_existing_image_def truthy_bytes_def)
  have "\<not> is_complete (item\<lparr>image_data := Some []\<rparr>)"
    by (simp add: is_complete_def truthy_bytes_def)
  moreover from this have "create_menu_item s (item\<lparr>image_data := Some []\<rparr>) =
     (Inl (ValueError ''All fields are required to create a menu item''), s)"
    by (simp add: create_menu_item_def)
  moreover have "has_changes rnd s i (item\<lparr>image_data := Some []\<rparr>) =
        has_changes rnd s i (item\<lparr>image_data := None\<rparr>) \<and>
      snd (snd (has_changes rnd s i (item\<lparr>image_data := Some []\<rparr>))) =
        item\<lparr>image_data := image_data cur, image_name := image_name cur\<rparr>"
    if "available s" "select_by_id s i = Some cur"
    using that c by (simp add: has_changes_available)
  moreover have "update_menu_item rnd s (item\<lparr>image_data := Some []\<rparr>) =
        update_menu_item rnd s (item\<lparr>image_data := None\<rparr>)"
    if "available s" "select_by_id s i = Some cur" "item_id item = Some i" "i \<noteq> 0"
  proof -
    have "update_menu_item rnd (opened s) (item\<lparr>image_data := Some []\<rparr>) =
          update_menu_item rnd (opened s) (item\<lparr>image_data := None\<rparr>)"
      using that c
      by (simp add: update_menu_item_connected [of _ i] Let_def)
    then show ?thesis
      using that by (simp add: update_menu_item_opened [of s _ i])
  qed
  moreover have "\<not> equals rnd (a\<lparr>image_data := None\<rparr>) (b\<lparr>image_data := Some []\<rparr>)"
    "\<not> equals rnd (a\<lparr>image_data := Some []\<rparr>) (b\<lparr>image_data := None\<rparr>)"
    by (simp_all add: equals_def)
  ultimately show ?thesis by blast
qed

theorem empty_image_as_absent_witness:
  "\<not> is_complete (tea\<lparr>image_data := Some []\<rparr>) \<and>
   has_changes exact cafe 1 (tea\<lparr>image_data := Some []\<rparr>) =
     has_changes exact cafe 1 (tea\<lparr>image_data := None\<rparr>) \<and>
   snd (snd (has_changes exact cafe 1 (tea\<lparr>image_data := Some []\<rparr>))) = tea \<and>
   update_menu_item exact cafe (tea\<lparr>image_data := Some []\<rparr>) =
     update_menu_item exact cafe (tea\<lparr>image_data := None\<rparr>)"
proof -
  have i: "item_id tea = Some 1" by (simp add: tea_def)
  have t: "tea\<lparr>image_data := image_data cafe_tea, image_name := image_name cafe_tea\<rparr> = tea"
    by (simp add: cafe_tea_def tea_def)
  have nz: "(1::int) \<noteq> 0" by simp
  note inst = empty_image_as_absent [where item = tea and s = cafe and i = 1
      and cur = cafe_tea and rnd = exact and a = tea and b = tea]
  have 1: "\<not> is_complete (tea\<lparr>image_data := Some []\<rparr>)"
    using inst by blast
  have 2: "has_changes exact cafe 1 (tea\<lparr>image_data := Some []\<rparr>) =
     has_changes exact cafe 1 (tea\<lparr>image_data := None\<rparr>)"
    using inst available_cafe select_cafe by blast
  have "snd (snd (has_changes exact cafe 1 (tea\<lparr>image_data := Some []\<rparr>))) =
     tea\<lparr>image_data := image_data cafe_tea, image_name := image_name cafe_tea\<rparr>"
    using inst available_cafe select_cafe by blast
  then have 3: "snd (snd (has_changes exact cafe 1 (tea\<lparr>image_data := Some []\<rparr>))) = tea"
    by (simp only: t)
  have 4: "update_menu_item exact cafe (tea\<lparr>image_data := Some []\<rparr>) =
     update_menu_item exact cafe (tea\<lparr>image_data := None\<rparr>)"
    using inst available_cafe select_cafe i nz by blast
  from 1 2 3 4 show ?thesis by blast
qed

text \<open>
  The claim as worded, an empty image treated as an absent one everywhere, fails at
  \<^verbatim>\<open>equals\<close>: an item without image equals itself, and no longer does once the
  other side's image is the empty one.
\<close>

theorem empty_image_as_absent_counterexample:
  "equals exact (tea\<lparr>image_data := None\<rparr>) (tea\<lparr>image_data := None\<rparr>) \<and>
   \<not> equals exact (tea\<lparr>image_data := None\<rparr>) (tea\<lparr>image_data := Some []\<rparr>)"
  by (simp add: equals_def tea_def exact_def)

section \<open>Search ranking\<close>




lemma starts_with_ci_iff:
  "starts_with_ci t s \<longleftrightarrow> (\<exists>ss. map to_upper s = map to_upper t @ ss)"
  by (induction t s rule: starts_with_ci.induct) auto

lemma contains_ci_iff:
  "contains_ci t s \<longleftrightarrow> (\<exists>ps ss. map to_upper s = ps @ map to_upper t @ ss)"
proof (induction s)
  case Nil
  show ?case by auto
next
  case (Cons c cs)
  show ?case
  proof
    assume "contains_ci t (c # cs)"
    then consider "starts_with_ci t (c # cs)" | "contains_ci t cs" by auto
    then show "\<exists>ps ss. map to_upper (c # cs) = ps @ map to_upper t @ ss"
    proof cases
      case 1
      then obtain ss where "map to_upper (c # cs) = map to_upper t @ ss"
        by (auto simp: starts_with_ci_iff)
      then have "map to_upper (c # cs) = [] @ map to_upper t @ ss" by simp
      then show ?thesis by blast
    next
      case 2
      with Cons obtain ps ss where "map to_upper cs = ps @ map to_upper t @ ss" by auto
      then have "map to_upper (c # cs) = (to_upper c # ps) @ map to_upper t @ ss" by simp
      then show ?thesis by blast
    qed
  next
    assume "\<exists>ps ss. map to_upper (c # cs) = ps @ map to_upper t @ ss"
    then obtain ps ss where eq: "map to_upper (c # cs) = ps @ map to_upper t @ ss" by blast
    show "contains_ci t (c # cs)"
    proof (cases ps)
      case Nil
      with eq have "starts_with_ci t (c # cs)"
        unfolding starts_with_ci_iff by auto
      then show ?thesis by simp
    next
      case (Cons q qs)
      with eq have "map to_upper cs = qs @ map to_upper t @ ss" by simp
      then have "contains_ci t cs"
        using Cons.IH by blast
      then show ?thesis by simp
    qed
  qed
qed











end
